theory Spec2Isabelle
  imports Main "HOL-Library.AList"
begin

section \<open>Errors\<close>

text \<open>
  Every JavaScript exception or rejected promise of the program is a value of this type.
  \<open>StorageError\<close> is a rejected call into the key-value store, \<open>TypeError\<close> a property
  read on \<open>undefined\<close>, \<open>ReferenceError\<close> a read of an identifier that is not in scope,
  \<open>DiscordError\<close> a rejected call into the chat platform.
\<close>

datatype error =
  ENOENT | EEXIST | EISDIR | SyntaxError | TypeError | ReferenceError | StorageError
  | DiscordError

section \<open>The data file manager (src/dataManager.js)\<close>

text \<open>
  The file system is the set of directories and the map from paths to file contents. A
  path is the list of its components. The calls of \<open>fs.promises\<close> fail as Node's do when
  the state of the file system decides it: \<open>access\<close> and \<open>readFile\<close> on a missing path,
  \<open>writeFile\<close> into a missing directory or onto a directory, \<open>mkdir\<close> (recursive)
  through a regular file.
\<close>

type_synonym path = "string list"

record filesystem =
  dirs :: "path set"
  files :: "path \<rightharpoonup> string"

datatype json =
  JNull | JBool bool | JNumber int | JString string | JArray "json list"
  | JObject "(string \<times> json) list"

definition ancestors :: "path \<Rightarrow> path list" where
  "ancestors p = map (\<lambda>n. take n p) [0..<Suc (length p)]"

definition path_dirname :: "path \<Rightarrow> path" where
  "path_dirname p = butlast p"

definition fs_access :: "path \<Rightarrow> filesystem \<Rightarrow> error + unit" where
  "fs_access p fs =
     (if files fs p \<noteq> None \<or> p \<in> dirs fs then Inr () else Inl ENOENT)"

definition fs_mkdir_recursive :: "path \<Rightarrow> filesystem \<Rightarrow> error + filesystem" where
  "fs_mkdir_recursive p fs =
     (if \<exists>q \<in> set (ancestors p). files fs q \<noteq> None then Inl EEXIST
      else Inr (fs\<lparr>dirs := dirs fs \<union> set (ancestors p)\<rparr>))"

definition fs_writeFile :: "path \<Rightarrow> string \<Rightarrow> filesystem \<Rightarrow> error + filesystem" where
  "fs_writeFile p txt fs =
     (if p \<in> dirs fs then Inl EISDIR
      else if path_dirname p \<notin> dirs fs then Inl ENOENT
      else Inr (fs\<lparr>files := (files fs)(p \<mapsto> txt)\<rparr>))"

definition fs_readFile :: "path \<Rightarrow> filesystem \<Rightarrow> error + string" where
  "fs_readFile p fs =
     (case files fs p of
        Some txt \<Rightarrow> Inr txt
      | None \<Rightarrow> if p \<in> dirs fs then Inl EISDIR else Inl ENOENT)"

text \<open>
  \<open>DataManager\<close> has one field, the path of the data file. \<open>JSON.stringify\<close> and
  \<open>JSON.parse\<close> are built into the language and not part of the repository: the two
  functions are parameters of the model (\<open>stringify\<close>, \<open>parse\<close>).
\<close>

record DataManager =
  dataPath :: path

definition constructor :: "path \<Rightarrow> DataManager" where
  "constructor dirname = \<lparr>dataPath = path_dirname dirname @ [''data'', ''userData.json'']\<rparr>"

definition initialData :: json where
  "initialData = JObject [(''users'', JObject [])]"

definition ensureDataFile ::
  "(json \<Rightarrow> string) \<Rightarrow> DataManager \<Rightarrow> filesystem \<Rightarrow> (error + unit) \<times> filesystem" where
  "ensureDataFile stringify dm fs =
     (case fs_access (dataPath dm) fs of
        Inr _ \<Rightarrow> (Inr (), fs)
      | Inl _ \<Rightarrow>
          (case fs_mkdir_recursive (path_dirname (dataPath dm)) fs of
             Inl e \<Rightarrow> (Inl e, fs)
           | Inr fs1 \<Rightarrow>
               (case fs_writeFile (dataPath dm) (stringify initialData) fs1 of
                  Inl e \<Rightarrow> (Inl e, fs1)
                | Inr fs2 \<Rightarrow> (Inr (), fs2))))"

definition loadData ::
  "(json \<Rightarrow> string) \<Rightarrow> (string \<Rightarrow> error + json) \<Rightarrow> DataManager \<Rightarrow> filesystem
     \<Rightarrow> (error + json) \<times> filesystem" where
  "loadData stringify parse dm fs =
     (case ensureDataFile stringify dm fs of
        (Inl e, fs1) \<Rightarrow> (Inl e, fs1)
      | (Inr _, fs1) \<Rightarrow>
          (case fs_readFile (dataPath dm) fs1 of
             Inl e \<Rightarrow> (Inl e, fs1)
           | Inr data \<Rightarrow> (parse data, fs1)))"

definition saveData ::
  "(json \<Rightarrow> string) \<Rightarrow> DataManager \<Rightarrow> json \<Rightarrow> filesystem \<Rightarrow> (error + unit) \<times> filesystem" where
  "saveData stringify dm data fs =
     (case fs_writeFile (dataPath dm) (stringify data) fs of
        Inl e \<Rightarrow> (Inl e, fs)
      | Inr fs1 \<Rightarrow> (Inr (), fs1))"

section \<open>Instants and wall-clock time (moment, moment-timezone)\<close>

text \<open>
  An instant is its number of milliseconds since the epoch. A zone is modelled by its
  offset from UTC in milliseconds, so \<open>moment().tz(zone)\<close> is the wall-clock reading
  \<open>clock + zone\<close>; zones whose offset changes during the year are outside this model.
  The setters replace one field of the wall-clock reading and keep the others (the
  milliseconds too: \<open>second(0)\<close> does not clear them); a value outside the field's range
  carries over, as in moment. \<open>day()\<close> is the weekday, 0 for Sunday: the epoch was a
  Thursday.
\<close>

type_synonym moment = int

definition moment_tz :: "int \<Rightarrow> int \<Rightarrow> moment" where
  "moment_tz clock zone = clock + zone"

definition hour_set :: "int \<Rightarrow> moment \<Rightarrow> moment" where
  "hour_set h m = m + (h - (m mod 86400000) div 3600000) * 3600000"

definition minute_set :: "int \<Rightarrow> moment \<Rightarrow> moment" where
  "minute_set mi m = m + (mi - (m mod 3600000) div 60000) * 60000"

definition second_set :: "int \<Rightarrow> moment \<Rightarrow> moment" where
  "second_set sec m = m + (sec - (m mod 60000) div 1000) * 1000"

definition day_of :: "moment \<Rightarrow> int" where
  "day_of m = (m div 86400000 + 4) mod 7"

definition add_day :: "moment \<Rightarrow> moment" where
  "add_day m = m + 86400000"

definition isBefore :: "moment \<Rightarrow> moment \<Rightarrow> bool" where
  "isBefore a b \<longleftrightarrow> a < b"

section \<open>The store, the timers and the global maps\<close>

text \<open>
  \<open>scheduleType\<close> is what \<open>setupReminder\<close> receives as its third argument: an array of
  numbers (\<open>Days\<close>) or a string (\<open>Kind\<close>). The time of day is the string \<open>HH:MM\<close> of the
  time menu, modelled by the pair of numbers that \<open>time.split(':').map(Number)\<close> makes of
  it; on a number, \<open>minutes || 0\<close> is the number itself.
\<close>

datatype scheduleType = Days "int list" | Kind string

type_synonym time = "int \<times> int"

record RecurrenceRule =
  rule_hour :: int
  rule_minute :: int
  rule_tz :: int
  dayOfWeek :: "int list option"

text \<open>
  A job of node-schedule: its rule, the user and task its callback closes over, and
  whether \<open>cancel()\<close> has been called on it. A job handle is the job's index in the list
  of all jobs ever scheduled; a job is a live timer while it is not cancelled.
\<close>

record job =
  job_rule :: RecurrenceRule
  job_userId :: string
  job_taskName :: string
  cancelled :: bool

record task =
  name :: string
  schedule :: scheduleType
  time :: time
  timezone :: int
  nextReminder :: int

record user =
  user_timezone :: "int option"
  reminderChannel :: "string option"
  tasks :: "(string \<times> task) list"

record message =
  guild_id :: string
  message_id :: string

text \<open>
  An interval timer of \<open>setInterval\<close>: the variables its callback closes over, and
  whether \<open>clearInterval\<close> has been called on it.
\<close>

record interval =
  iv_countdownId :: string
  iv_message :: message
  iv_targetDate :: int
  cleared :: bool

datatype discord_call = MessageDelete message | MessageEdit message string

text \<open>
  The state of the process and of its collaborators. The store holds one entry per user
  (key \<open>user_<id>\<close>), in insertion order. Each call into the store consumes the head of
  \<open>db_faults\<close>: \<open>True\<close> makes that call reject, \<open>False\<close> or an exhausted list lets it
  succeed. \<open>discord\<close> is the sequence of calls made on messages.
\<close>

record state =
  activeReminders :: "string \<rightharpoonup> nat"
  activeCountdowns :: "string \<rightharpoonup> nat"
  jobs :: "job list"
  intervals :: "interval list"
  db :: "(string \<times> user) list"
  db_faults :: "bool list"
  discord :: "discord_call list"

definition db_call :: "state \<Rightarrow> bool \<times> state" where
  "db_call s =
     (case db_faults s of
        [] \<Rightarrow> (True, s)
      | f # fs \<Rightarrow> (\<not> f, s\<lparr>db_faults := fs\<rparr>))"

definition db_user :: "string \<Rightarrow> state \<Rightarrow> user" where
  "db_user userId s =
     (case map_of (db s) userId of
        Some u \<Rightarrow> u
      | None \<Rightarrow> \<lparr>user_timezone = None, reminderChannel = None, tasks = []\<rparr>)"

definition db_get_timezone :: "string \<Rightarrow> state \<Rightarrow> (error + int option) \<times> state" where
  "db_get_timezone userId s =
     (case db_call s of
        (True, s1) \<Rightarrow> (Inr (user_timezone (db_user userId s1)), s1)
      | (False, s1) \<Rightarrow> (Inl StorageError, s1))"

definition db_set_task :: "string \<Rightarrow> string \<Rightarrow> task \<Rightarrow> state \<Rightarrow> (error + unit) \<times> state" where
  "db_set_task userId taskName t s =
     (case db_call s of
        (True, s1) \<Rightarrow>
          (let u = db_user userId s1
           in (Inr (), s1\<lparr>db := AList.update userId
                                 (u\<lparr>tasks := AList.update taskName t (tasks u)\<rparr>) (db s1)\<rparr>))
      | (False, s1) \<Rightarrow> (Inl StorageError, s1))"

definition db_delete_task :: "string \<Rightarrow> string \<Rightarrow> state \<Rightarrow> (error + unit) \<times> state" where
  "db_delete_task userId taskName s =
     (case db_call s of
        (True, s1) \<Rightarrow>
          (case map_of (db s1) userId of
             None \<Rightarrow> (Inr (), s1)
           | Some u \<Rightarrow>
               (Inr (), s1\<lparr>db := AList.update userId
                                  (u\<lparr>tasks := AList.delete taskName (tasks u)\<rparr>) (db s1)\<rparr>))
      | (False, s1) \<Rightarrow> (Inl StorageError, s1))"






definition scheduleJob :: "RecurrenceRule \<Rightarrow> string \<Rightarrow> string \<Rightarrow> state \<Rightarrow> nat \<times> state" where
  "scheduleJob rule userId taskName s =
     (length (jobs s),
      s\<lparr>jobs := jobs s @ [\<lparr>job_rule = rule, job_userId = userId, job_taskName = taskName,
                           cancelled = False\<rparr>]\<rparr>)"

definition job_cancel :: "nat \<Rightarrow> state \<Rightarrow> state" where
  "job_cancel j s = s\<lparr>jobs := (jobs s)[j := (jobs s ! j)\<lparr>cancelled := True\<rparr>]\<rparr>"

definition setInterval :: "string \<Rightarrow> message \<Rightarrow> int \<Rightarrow> state \<Rightarrow> nat \<times> state" where
  "setInterval countdownId msg targetDate s =
     (length (intervals s),
      s\<lparr>intervals := intervals s @ [\<lparr>iv_countdownId = countdownId, iv_message = msg,
                                     iv_targetDate = targetDate, cleared = False\<rparr>]\<rparr>)"

definition clearInterval :: "nat \<Rightarrow> state \<Rightarrow> state" where
  "clearInterval i s = s\<lparr>intervals := (intervals s)[i := (intervals s ! i)\<lparr>cleared := True\<rparr>]\<rparr>"

section \<open>Scheduling a task: setupReminder\<close>

text \<open>
  The keys of the two maps, built by template strings: \<open>${userId}_${taskName}\<close> for a
  task in \<open>activeReminders\<close>, \<open>${userId}_${taskName}_countdown\<close> and
  \<open>${message.guild.id}_${message.id}\<close> in \<open>activeCountdowns\<close>.
\<close>

definition reminder_id :: "string \<Rightarrow> string \<Rightarrow> string" where
  "reminder_id userId taskName = userId @ ''_'' @ taskName"

definition task_countdown_id :: "string \<Rightarrow> string \<Rightarrow> string" where
  "task_countdown_id userId taskName = userId @ ''_'' @ taskName @ ''_countdown''"

definition countdown_id :: "message \<Rightarrow> string" where
  "countdown_id msg = guild_id msg @ ''_'' @ message_id msg"

text \<open>
  The loop of the array branch (lines 833 to 835): add one day until the weekday of the
  candidate is an element of the array. Nothing bounds it in the source, so it is a
  partial function: \<open>None\<close> is the loop that never ends.
\<close>

partial_function (option) advance_to_listed :: "int list \<Rightarrow> moment \<Rightarrow> moment option" where
  "advance_to_listed scheduleType nextRun =
     (if day_of nextRun \<in> set scheduleType then Some nextRun
      else advance_to_listed scheduleType (add_day nextRun))"

declare advance_to_listed.simps [code]

text \<open>
  Lines 831 to 867: the rule and the candidate \<open>nextRun\<close> for each shape of schedule.
  \<open>setupReminder\<close> has four parameters (userId, taskName, scheduleType, time) and the
  program declares no variable \<open>scheduleDay\<close> outside the parameter lists of other
  functions, so the first statement of the weekly branch (\<open>rule.dayOfWeek = scheduleDay\<close>)
  and of the monthly branch (\<open>rule.date = scheduleDay\<close>) throws a ReferenceError and the
  rest of those branches never runs. A string that is none of the three cases leaves
  the switch without a match.
\<close>

definition next_run ::
  "scheduleType \<Rightarrow> RecurrenceRule \<Rightarrow> moment \<Rightarrow> moment
     \<Rightarrow> (error + RecurrenceRule \<times> moment) option" where
  "next_run scheduleType rule now nextRun =
     (case scheduleType of
        Days ds \<Rightarrow>
          (case advance_to_listed ds nextRun of
             None \<Rightarrow> None
           | Some nextRun' \<Rightarrow> Some (Inr (rule\<lparr>dayOfWeek := Some ds\<rparr>, nextRun')))
      | Kind k \<Rightarrow>
          if k = ''daily'' then
            Some (Inr (rule, if isBefore nextRun now then add_day nextRun else nextRun))
          else if k = ''weekly'' then Some (Inl ReferenceError)
          else if k = ''monthly'' then Some (Inl ReferenceError)
          else Some (Inr (rule, nextRun)))"

text \<open>
  Lines 868 to 900: the job is scheduled and stored in \<open>activeReminders\<close>, then the task
  is written to the store, and \<open>nextRun\<close> is returned. The stored \<open>nextReminder\<close> is the
  instant of \<open>nextRun\<close>.
\<close>

definition arm_and_persist ::
  "RecurrenceRule \<Rightarrow> moment \<Rightarrow> string \<Rightarrow> string \<Rightarrow> scheduleType \<Rightarrow> time \<Rightarrow> int \<Rightarrow> state
     \<Rightarrow> (error + moment) \<times> state" where
  "arm_and_persist rule nextRun userId taskName scheduleType tm userTimezone s =
     (let reminderId = reminder_id userId taskName;
          (j, s3) = scheduleJob rule userId taskName s;
          s4 = s3\<lparr>activeReminders := (activeReminders s3)(reminderId \<mapsto> j)\<rparr>
      in case db_set_task userId taskName
                \<lparr>name = taskName, schedule = scheduleType, time = tm,
                 timezone = userTimezone, nextReminder = nextRun - userTimezone\<rparr> s4 of
           (Inl e, s5) \<Rightarrow> (Inl e, s5)
         | (Inr _, s5) \<Rightarrow> (Inr nextRun, s5))"

text \<open>
  \<open>setupReminder\<close>, with the reading of the clock as first argument (the two calls of
  \<open>moment()\<close> on lines 828 and 829 get the same reading). The result is
  \<open>None\<close> when the call never returns, an error when it throws or its promise rejects,
  and the candidate \<open>nextRun\<close> otherwise. Without a stored zone \<open>moment().tz(undefined)\<close>
  is \<open>undefined\<close> and the call of \<open>hour\<close> on it throws a TypeError. The callback of the
  job (lines 868 to 888) runs when the timer fires, not here.
\<close>

definition setupReminder ::
  "int \<Rightarrow> string \<Rightarrow> string \<Rightarrow> scheduleType \<Rightarrow> time \<Rightarrow> state
     \<Rightarrow> ((error + moment) \<times> state) option" where
  "setupReminder clock userId taskName scheduleType tm s =
     (let reminderId = reminder_id userId taskName;
          s1 = (case activeReminders s reminderId of
                  Some j \<Rightarrow> job_cancel j s
                | None \<Rightarrow> s)
      in case db_get_timezone userId s1 of
           (Inl e, s2) \<Rightarrow> Some (Inl e, s2)
         | (Inr None, s2) \<Rightarrow> Some (Inl TypeError, s2)
         | (Inr (Some userTimezone), s2) \<Rightarrow>
             (let hours = fst tm; minutes = snd tm;
                  rule = \<lparr>rule_hour = hours, rule_minute = minutes, rule_tz = userTimezone,
                          dayOfWeek = None\<rparr>;
                  now = moment_tz clock userTimezone;
                  nextRun = second_set 0 (minute_set minutes
                              (hour_set hours (moment_tz clock userTimezone)))
              in case next_run scheduleType rule now nextRun of
                   None \<Rightarrow> None
                 | Some (Inl e) \<Rightarrow> Some (Inl e, s2)
                 | Some (Inr (rule', nextRun')) \<Rightarrow>
                     Some (arm_and_persist rule' nextRun' userId taskName scheduleType tm
                             userTimezone s2)))"

section \<open>Cancelling a task: handleTaskCancellation\<close>

text \<open>
  The selected task of the interaction and its user are the arguments. The reply to the
  interaction that follows the deletion from the store is presentation and left out.
\<close>

definition handleTaskCancellation :: "string \<Rightarrow> string \<Rightarrow> state \<Rightarrow> (error + unit) \<times> state" where
  "handleTaskCancellation userId taskName s =
     (let reminderId = reminder_id userId taskName;
          countdownId = task_countdown_id userId taskName;
          s1 = (case activeReminders s reminderId of
                  Some j \<Rightarrow> (job_cancel j s)\<lparr>activeReminders := (activeReminders s)(reminderId := None)\<rparr>
                | None \<Rightarrow> s);
          s2 = (case activeCountdowns s1 countdownId of
                  Some i \<Rightarrow> (clearInterval i s1)\<lparr>activeCountdowns :=
                                                    (activeCountdowns s1)(countdownId := None)\<rparr>
                | None \<Rightarrow> s1)
      in db_delete_task userId taskName s2)"

section \<open>The sweeps: cleanupStaleReminders and restoreReminders\<close>

text \<open>A number inside a template string: its decimal digits.\<close>

definition digit :: "nat \<Rightarrow> char" where
  "digit d = ''0123456789'' ! d"

fun decimal :: "nat \<Rightarrow> string" where
  "decimal n = (if n div 10 = 0 then [digit n] else decimal (n div 10) @ [digit (n mod 10)])"

declare decimal.simps [simp del]











section \<open>Sequences of schedule and cancel operations\<close>

datatype operation =
  Schedule int string string scheduleType time
  | Cancel string string

fun run_operation :: "operation \<Rightarrow> state \<Rightarrow> state option" where
  "run_operation (Schedule clock userId taskName scheduleType tm) s =
     map_option snd (setupReminder clock userId taskName scheduleType tm s)"
| "run_operation (Cancel userId taskName) s = Some (snd (handleTaskCancellation userId taskName s))"

fun run_operations :: "operation list \<Rightarrow> state \<Rightarrow> state option" where
  "run_operations [] s = Some s"
| "run_operations (x # xs) s =
     (case run_operation x s of
        None \<Rightarrow> None
      | Some s' \<Rightarrow> run_operations xs s')"

text \<open>
  A process that has just started: no job, no interval, both maps empty, over a store with
  the given content and the given outcomes of the calls to come.
\<close>

definition fresh_process :: "(string \<times> user) list \<Rightarrow> bool list \<Rightarrow> state" where
  "fresh_process content faults =
     \<lparr>activeReminders = Map.empty, activeCountdowns = Map.empty, jobs = [], intervals = [],
      db = content, db_faults = faults, discord = []\<rparr>"

text \<open>
  A store content for examples: user 42, whose zone is one hour ahead of UTC, without
  tasks.
\<close>

definition example_store :: "(string \<times> user) list" where
  "example_store =
     [(''42'', \<lparr>user_timezone = Some 3600000, reminderChannel = Some ''general'', tasks = []\<rparr>)]"

text \<open>
  The state of a process over that store after user 42 has scheduled the task gym daily
  at 09:00, cancelled it, and scheduled it again for Mondays and Wednesdays at 18:30.
\<close>

definition example_rescheduled :: state where
  "example_rescheduled =
     \<lparr>activeReminders = [''42_gym'' \<mapsto> 1], activeCountdowns = Map.empty,
      jobs = [\<lparr>job_rule = \<lparr>rule_hour = 9, rule_minute = 0, rule_tz = 3600000,
                           dayOfWeek = None\<rparr>,
                job_userId = ''42'', job_taskName = ''gym'', cancelled = True\<rparr>,
               \<lparr>job_rule = \<lparr>rule_hour = 18, rule_minute = 30, rule_tz = 3600000,
                           dayOfWeek = Some [1, 3]\<rparr>,
                job_userId = ''42'', job_taskName = ''gym'', cancelled = False\<rparr>],
      intervals = [],
      db = [(''42'', \<lparr>user_timezone = Some 3600000, reminderChannel = Some ''general'',
                     tasks = [(''gym'', \<lparr>name = ''gym'', schedule = Days [1, 3],
                                         time = (18, 30), timezone = 3600000,
                                         nextReminder = 1704130200000\<rparr>)]\<rparr>)],
      db_faults = [], discord = []\<rparr>"



text \<open>The live timers of a key: the handles of the jobs for it that are not cancelled.\<close>

definition job_key :: "job \<Rightarrow> string" where
  "job_key j = reminder_id (job_userId j) (job_taskName j)"

definition live_timers :: "state \<Rightarrow> string \<Rightarrow> nat list" where
  "live_timers s k =
     filter (\<lambda>j. \<not> cancelled (jobs s ! j) \<and> job_key (jobs s ! j) = k) [0..<length (jobs s)]"

section \<open>The countdown of a sent reminder: startCountdownUpdate\<close>

fun join_space :: "string list \<Rightarrow> string" where
  "join_space [] = []"
| "join_space [x] = x"
| "join_space (x # y # ys) = x @ '' '' @ join_space (y # ys)"

text \<open>\<open>formatCountdown\<close> (lines 119 to 139), with the reading of the clock as argument.\<close>

definition formatCountdown :: "int \<Rightarrow> int \<Rightarrow> string" where
  "formatCountdown targetDate now =
     (let diff = targetDate - now
      in if diff \<le> 0 then ''Reminder due now!''
         else
           (let days = diff div 86400000;
                hours = (diff div 3600000) mod 24;
                minutes = (diff div 60000) mod 60;
                seconds = (diff div 1000) mod 60
            in join_space
                 ((if days > 0 then [decimal (nat days) @ ''d''] else []) @
                  (if hours > 0 then [decimal (nat hours) @ ''h''] else []) @
                  (if minutes > 0 then [decimal (nat minutes) @ ''m''] else []) @
                  (if seconds > 0 then [decimal (nat seconds) @ ''s''] else []))))"

definition startCountdownUpdate :: "message \<Rightarrow> int \<Rightarrow> state \<Rightarrow> nat \<times> state" where
  "startCountdownUpdate msg targetDate s =
     (let countdownId = countdown_id msg;
          s1 = (case activeCountdowns s countdownId of
                  Some i \<Rightarrow> clearInterval i s
                | None \<Rightarrow> s);
          (i, s2) = setInterval countdownId msg targetDate s1
      in (i, s2\<lparr>activeCountdowns := (activeCountdowns s2)(countdownId \<mapsto> i)\<rparr>))"

text \<open>
  The callback of the interval (lines 165 to 189), for the interval with handle \<open>i\<close>: the
  reading of the clock and whether the call that edits the message succeeds are
  arguments. A failed \<open>message.delete()\<close> is swallowed by its own \<open>catch\<close>; whatever else
  throws inside the \<open>try\<close> is caught and stops the interval. The edited text is
  represented by the formatted countdown.
\<close>

definition countdown_tick :: "int \<Rightarrow> bool \<Rightarrow> nat \<Rightarrow> state \<Rightarrow> state" where
  "countdown_tick now edit_ok i s =
     (let countdownId = iv_countdownId (intervals s ! i);
          msg = iv_message (intervals s ! i);
          targetDate = iv_targetDate (intervals s ! i);
          diff = targetDate - now
      in if diff \<le> 0 then
           (clearInterval i s)\<lparr>activeCountdowns := (activeCountdowns s)(countdownId := None),
                                discord := discord s @ [MessageDelete msg]\<rparr>
         else if edit_ok then
           s\<lparr>discord := discord s @ [MessageEdit msg (formatCountdown targetDate now)]\<rparr>
         else
           (clearInterval i s)\<lparr>activeCountdowns := (activeCountdowns s)(countdownId := None)\<rparr>)"

text \<open>
  The timer system calls the callback of an interval only while the interval exists and
  has not been cleared: \<open>interval_elapses\<close> is one period of interval \<open>i\<close> elapsing, and
  \<open>ticks\<close> counts the calls of the callback over a sequence of such periods.
\<close>

definition interval_elapses :: "nat \<Rightarrow> int \<Rightarrow> bool \<Rightarrow> state \<Rightarrow> state" where
  "interval_elapses i now edit_ok s =
     (if i < length (intervals s) \<and> \<not> cleared (intervals s ! i)
      then countdown_tick now edit_ok i s else s)"

fun periods :: "nat \<Rightarrow> (int \<times> bool) list \<Rightarrow> state \<Rightarrow> nat \<times> state" where
  "periods i [] s = (0, s)"
| "periods i ((now, edit_ok) # rest) s =
     (let fired = (i < length (intervals s) \<and> \<not> cleared (intervals s ! i));
          (n, s') = periods i rest (interval_elapses i now edit_ok s)
      in ((if fired then 1 else 0) + n, s'))"

text \<open>
  An example: the countdown of message m7 of guild g1, started in a fresh process with
  the target 1704103200000.
\<close>

definition example_message :: message where
  "example_message = \<lparr>guild_id = ''g1'', message_id = ''m7''\<rparr>"

definition example_ticking :: state where
  "example_ticking =
     (fresh_process [] [])
       \<lparr>activeCountdowns := [''g1_m7'' \<mapsto> 0],
        intervals := [\<lparr>iv_countdownId = ''g1_m7'', iv_message = example_message,
                        iv_targetDate = 1704103200000, cleared = False\<rparr>]\<rparr>"

text \<open>
  The schedules on which the loop of the array branch ends: every string, and every array
  that holds a weekday number. The operations built from them.
\<close>

definition has_weekday :: "scheduleType \<Rightarrow> bool" where
  "has_weekday sch \<longleftrightarrow>
     (case sch of Days ds \<Rightarrow> (\<exists>d \<in> set ds. 0 \<le> d \<and> d < 7) | Kind k \<Rightarrow> True)"

fun operation_has_weekday :: "operation \<Rightarrow> bool" where
  "operation_has_weekday (Schedule clock userId taskName scheduleType tm) = has_weekday scheduleType"
| "operation_has_weekday (Cancel userId taskName) = True"

section \<open>Vocabulary for the effects of setupReminder\<close>

text \<open>
  The list of jobs once the job registered under a key (if any) has been cancelled; a
  call that ended before a job was scheduled (\<open>unarmed\<close>); a call that scheduled and
  registered a job (\<open>armed\<close>); a call that wrote the task to the store (\<open>persisted\<close>).
\<close>

definition jobs_cancelled_at :: "state \<Rightarrow> string \<Rightarrow> job list" where
  "jobs_cancelled_at s k =
     (case activeReminders s k of
        Some j \<Rightarrow> (jobs s)[j := (jobs s ! j)\<lparr>cancelled := True\<rparr>]
      | None \<Rightarrow> jobs s)"

definition unarmed :: "state \<Rightarrow> string \<Rightarrow> state \<Rightarrow> bool" where
  "unarmed s k s' \<longleftrightarrow>
     jobs s' = jobs_cancelled_at s k \<and> activeReminders s' = activeReminders s \<and> db s' = db s"

definition armed :: "state \<Rightarrow> string \<Rightarrow> string \<Rightarrow> state \<Rightarrow> bool" where
  "armed s u tn s' \<longleftrightarrow>
     (\<exists>rule. jobs s' = jobs_cancelled_at s (reminder_id u tn) @
                 [\<lparr>job_rule = rule, job_userId = u, job_taskName = tn, cancelled = False\<rparr>])
     \<and> activeReminders s' = (activeReminders s)(reminder_id u tn \<mapsto> length (jobs s))"

definition persisted ::
  "state \<Rightarrow> string \<Rightarrow> string \<Rightarrow> scheduleType \<Rightarrow> time \<Rightarrow> state \<Rightarrow> bool" where
  "persisted s u tn sch tm s' \<longleftrightarrow>
     (\<exists>t. schedule t = sch \<and> time t = tm \<and>
        db s' = AList.update u
                  ((db_user u s)\<lparr>tasks := AList.update tn t (tasks (db_user u s))\<rparr>) (db s))"

text \<open>
  The registry invariant: every live job is the one registered under its own key, and
  every registered handle is the handle of a job.
\<close>

definition registry_ok :: "state \<Rightarrow> bool" where
  "registry_ok s \<longleftrightarrow>
     (\<forall>j < length (jobs s). \<not> cancelled (jobs s ! j)
         \<longrightarrow> activeReminders s (job_key (jobs s ! j)) = Some j)
     \<and> (\<forall>k j. activeReminders s k = Some j \<longrightarrow> j < length (jobs s))"

section \<open>Properties of the data file manager\<close>

lemma dirname_in_ancestors: "p \<in> set (ancestors p)"
  unfolding ancestors_def by (auto intro!: image_eqI [where x = "length p"])

lemma ancestors_length: "q \<in> set (ancestors p) \<Longrightarrow> length q \<le> length p"
  unfolding ancestors_def by auto

text \<open>
  Claim C10. Loading does not fail because the data file is absent. When neither a file
  nor a directory sits at the data path (and no regular file blocks the way to its parent
  directory), \<open>loadData\<close> creates the parent directory and the file with the stringified
  initial object \<open>{users: {}}\<close>, and returns what \<open>JSON.parse\<close> makes of that text, which
  is the initial object for every \<open>parse\<close> that inverts \<open>stringify\<close> there. When the file
  exists, \<open>loadData\<close> returns the parsed content of the file and leaves the file system
  as it is.
\<close>

theorem loadData_absent_or_present:
  assumes roundtrip: "parse (stringify initialData) = Inr initialData"
    and dm: "dm = constructor dirname"
  shows "(files fs (dataPath dm) = None \<and> dataPath dm \<notin> dirs fs \<and>
          (\<forall>q \<in> set (ancestors (path_dirname (dataPath dm))). files fs q = None)
          \<longrightarrow> (\<exists>fs'. loadData stringify parse dm fs = (Inr initialData, fs') \<and>
                 files fs' (dataPath dm) = Some (stringify initialData) \<and>
                 path_dirname (dataPath dm) \<in> dirs fs'))
       \<and> (files fs (dataPath dm) = Some data
          \<longrightarrow> loadData stringify parse dm fs = (parse data, fs))"
proof (intro conjI impI)
  assume absent: "files fs (dataPath dm) = None \<and> dataPath dm \<notin> dirs fs \<and>
     (\<forall>q \<in> set (ancestors (path_dirname (dataPath dm))). files fs q = None)"
  let ?d = "path_dirname (dataPath dm)"
  let ?fs1 = "fs\<lparr>dirs := dirs fs \<union> set (ancestors ?d)\<rparr>"
  let ?fs2 = "?fs1\<lparr>files := (files ?fs1)(dataPath dm \<mapsto> stringify initialData)\<rparr>"
  have acc: "fs_access (dataPath dm) fs = Inl ENOENT"
    using absent by (simp add: fs_access_def)
  have mk: "fs_mkdir_recursive ?d fs = Inr ?fs1"
    using absent by (simp add: fs_mkdir_recursive_def)
  have len: "length ?d < length (dataPath dm)"
    by (simp add: dm constructor_def path_dirname_def)
  have notdir: "dataPath dm \<notin> set (ancestors ?d)"
    using len ancestors_length [of "dataPath dm" ?d] by auto
  have wr: "fs_writeFile (dataPath dm) (stringify initialData) ?fs1 = Inr ?fs2"
    using absent notdir dirname_in_ancestors [of ?d] by (simp add: fs_writeFile_def)
  have ens: "ensureDataFile stringify dm fs = (Inr (), ?fs2)"
    by (simp add: ensureDataFile_def acc mk wr)
  have rd: "fs_readFile (dataPath dm) ?fs2 = Inr (stringify initialData)"
    by (simp add: fs_readFile_def)
  have "loadData stringify parse dm fs = (Inr initialData, ?fs2)"
    by (simp only: loadData_def ens rd roundtrip prod.case sum.case)
  moreover have "files ?fs2 (dataPath dm) = Some (stringify initialData)" by simp
  moreover have "?d \<in> dirs ?fs2" using dirname_in_ancestors [of ?d] by simp
  ultimately show "\<exists>fs'. loadData stringify parse dm fs = (Inr initialData, fs') \<and>
     files fs' (dataPath dm) = Some (stringify initialData) \<and>
     path_dirname (dataPath dm) \<in> dirs fs'"
    by blast
next
  assume present: "files fs (dataPath dm) = Some data"
  then show "loadData stringify parse dm fs = (parse data, fs)"
    by (simp add: loadData_def ensureDataFile_def fs_access_def fs_readFile_def)
qed

theorem loadData_absent_or_present_witness:
  "(let stringify = (\<lambda>j. if j = initialData then ''{users: {}}'' else ''null'');
        parse = (\<lambda>t. if t = ''{users: {}}'' then Inr initialData
                       else if t = ''null'' then Inr JNull else Inl SyntaxError);
        dm = constructor [''app'', ''src''];
        fs0 = \<lparr>dirs = {[], [''app''], [''app'', ''src'']}, files = Map.empty\<rparr>;
        fs1 = \<lparr>dirs = {[], [''app''], [''app'', ''data'']},
               files = [[''app'', ''data'', ''userData.json''] \<mapsto> ''null'']\<rparr>
    in parse (stringify initialData) = Inr initialData
       \<and> files fs0 (dataPath dm) = None \<and> dataPath dm \<notin> dirs fs0
       \<and> (\<forall>q \<in> set (ancestors (path_dirname (dataPath dm))). files fs0 q = None)
       \<and> (\<exists>fs'. loadData stringify parse dm fs0 = (Inr initialData, fs') \<and>
               files fs' (dataPath dm) = Some (stringify initialData) \<and>
               path_dirname (dataPath dm) \<in> dirs fs')
       \<and> files fs1 (dataPath dm) = Some ''null''
       \<and> loadData stringify parse dm fs1 = (Inr JNull, fs1))"
proof -
  let ?stringify = "\<lambda>j. if j = initialData then ''{users: {}}'' else ''null''"
  let ?parse = "\<lambda>t. if t = ''{users: {}}'' then Inr initialData
                       else if t = ''null'' then Inr JNull else Inl SyntaxError"
  let ?dm = "constructor [''app'', ''src'']"
  let ?fs0 = "\<lparr>dirs = {[], [''app''], [''app'', ''src'']}, files = Map.empty\<rparr>"
  let ?fs1 = "\<lparr>dirs = {[], [''app''], [''app'', ''data'']},
               files = [[''app'', ''data'', ''userData.json''] \<mapsto> ''null'']\<rparr>"
  have p: "dataPath ?dm = [''app'', ''data'', ''userData.json'']"
    by (simp add: constructor_def path_dirname_def)
  have a: "\<exists>fs'. loadData ?stringify ?parse ?dm ?fs0 = (Inr initialData, fs') \<and>
               files fs' (dataPath ?dm) = Some (?stringify initialData) \<and>
               path_dirname (dataPath ?dm) \<in> dirs fs'"
    using loadData_absent_or_present
      [where parse = ?parse and stringify = ?stringify and dm = ?dm
         and dirname = "[''app'', ''src'']" and fs = ?fs0 and data = "''null''"]
    by (simp add: p)
  have b: "loadData ?stringify ?parse ?dm ?fs1 = (Inr JNull, ?fs1)"
    using loadData_absent_or_present
      [where parse = ?parse and stringify = ?stringify and dm = ?dm
         and dirname = "[''app'', ''src'']" and fs = ?fs1 and data = "''null''"]
    by (simp add: p)
  show ?thesis
    unfolding Let_def using a b by (simp add: p)
qed

section \<open>Equations for evaluating concrete calls\<close>

lemmas eval_defs = setupReminder_def next_run_def arm_and_persist_def db_get_timezone_def
  db_set_task_def db_call_def db_user_def scheduleJob_def job_cancel_def moment_tz_def hour_set_def
  minute_set_def second_set_def day_of_def add_day_def isBefore_def fresh_process_def
  example_store_def reminder_id_def Let_def

section \<open>Effects of setupReminder\<close>

lemma db_call_cases:
  "db_call s = (ok, s1) \<Longrightarrow>
     s1 = s\<lparr>db_faults := tl (db_faults s)\<rparr> \<and> (\<not> ok \<longleftrightarrow> (\<exists>rest. db_faults s = True # rest))"
  by (cases s) (auto simp: db_call_def split: list.splits)

lemma db_get_timezone_cases:
  assumes "db_get_timezone u s = (r, s1)"
  shows "s1 = s\<lparr>db_faults := tl (db_faults s)\<rparr> \<and>
         (r = Inr (user_timezone (db_user u s)) \<or>
          r = Inl StorageError \<and> (\<exists>rest. db_faults s = True # rest))"
proof -
  obtain ok s0 where c: "db_call s = (ok, s0)" by force
  from db_call_cases [OF c] assms show ?thesis
    by (cases ok) (auto simp: db_get_timezone_def c db_user_def)
qed

lemma db_set_task_cases:
  assumes "db_set_task u tn t s = (r, s1)"
  shows "(r = Inr () \<and> \<not> (\<exists>rest. db_faults s = True # rest) \<and>
          s1 = s\<lparr>db_faults := tl (db_faults s),
                 db := AList.update u ((db_user u s)\<lparr>tasks := AList.update tn t (tasks (db_user u s))\<rparr>) (db s)\<rparr>)
         \<or> (r = Inl StorageError \<and> s1 = s\<lparr>db_faults := tl (db_faults s)\<rparr> \<and>
              (\<exists>rest. db_faults s = True # rest))"
proof -
  obtain ok s0 where c: "db_call s = (ok, s0)" by force
  from db_call_cases [OF c] assms show ?thesis
    by (cases ok) (auto simp: db_set_task_def c db_user_def Let_def)
qed

lemma cancel_old:
  "(case activeReminders s k of Some j \<Rightarrow> job_cancel j s | None \<Rightarrow> s)
     = s\<lparr>jobs := jobs_cancelled_at s k\<rparr>"
  by (cases s) (auto simp: job_cancel_def jobs_cancelled_at_def split: option.splits)

lemma arm_and_persist_cases:
  assumes "arm_and_persist rule nr u tn sch tm z s = (r, s')"
  shows "intervals s' = intervals s \<and> activeCountdowns s' = activeCountdowns s \<and>
         discord s' = discord s \<and> db_faults s' = tl (db_faults s) \<and>
         jobs s' = jobs s @ [\<lparr>job_rule = rule, job_userId = u, job_taskName = tn, cancelled = False\<rparr>] \<and>
         activeReminders s' = (activeReminders s)(reminder_id u tn \<mapsto> length (jobs s)) \<and>
         ((r = Inl StorageError \<and> db s' = db s \<and> (\<exists>rest. db_faults s = True # rest))
          \<or> (r = Inr nr \<and> \<not> (\<exists>rest. db_faults s = True # rest) \<and>
              (\<exists>t. schedule t = sch \<and> time t = tm \<and>
                db s' = AList.update u ((db_user u s)\<lparr>tasks := AList.update tn t (tasks (db_user u s))\<rparr>) (db s))))"
proof -
  let ?s4 = "s\<lparr>jobs := jobs s @ [\<lparr>job_rule = rule, job_userId = u, job_taskName = tn, cancelled = False\<rparr>],
                activeReminders := (activeReminders s)(reminder_id u tn \<mapsto> length (jobs s))\<rparr>"
  let ?t = "\<lparr>name = tn, schedule = sch, time = tm, timezone = z, nextReminder = nr - z\<rparr>"
  obtain r5 s5 where w: "db_set_task u tn ?t ?s4 = (r5, s5)" by force
  have unf: "arm_and_persist rule nr u tn sch tm z s =
      (case (r5, s5) of (Inl e, s5) \<Rightarrow> (Inl e, s5) | (Inr _, s5) \<Rightarrow> (Inr nr, s5))"
    by (simp add: arm_and_persist_def scheduleJob_def Let_def w)
  have u4: "db_user u ?s4 = db_user u s" by (simp add: db_user_def)
  from db_set_task_cases [OF w] show ?thesis
  proof
    assume a: "r5 = Inr () \<and> \<not> (\<exists>rest. db_faults ?s4 = True # rest) \<and> s5 = ?s4\<lparr>db_faults := tl (db_faults ?s4),
        db := AList.update u ((db_user u ?s4)\<lparr>tasks := AList.update tn ?t (tasks (db_user u ?s4))\<rparr>) (db ?s4)\<rparr>"
    then have "r = Inr nr" and "s' = s5" using assms unf by auto
    then show ?thesis using a u4 by (auto intro!: exI [where x = ?t])
  next
    assume a: "r5 = Inl StorageError \<and> s5 = ?s4\<lparr>db_faults := tl (db_faults ?s4)\<rparr> \<and>
              (\<exists>rest. db_faults ?s4 = True # rest)"
    then have "r = Inl StorageError" and "s' = s5" using assms unf by auto
    then show ?thesis using a by auto
  qed
qed

lemma setupReminder_shape:
  assumes "setupReminder c u tn sch tm s = Some (r, s')"
  shows "intervals s' = intervals s \<and> activeCountdowns s' = activeCountdowns s \<and>
         discord s' = discord s \<and>
         ((\<exists>e. r = Inl e \<and> unarmed s (reminder_id u tn) s' \<and>
                (e = StorageError \<longrightarrow> (\<exists>rest. db_faults s = True # rest)))
          \<or> (r = Inl StorageError \<and> armed s u tn s' \<and> db s' = db s \<and>
                (\<exists>f rest. db_faults s = f # True # rest))
          \<or> (\<exists>nr. r = Inr nr \<and> armed s u tn s' \<and> persisted s u tn sch tm s' \<and>
                \<not> (\<exists>f rest. db_faults s = f # True # rest)))"
proof -
  let ?s0 = "s\<lparr>jobs := jobs_cancelled_at s (reminder_id u tn)\<rparr>"
  obtain r1 s1 where g: "db_get_timezone u ?s0 = (r1, s1)" by force
  note g' = db_get_timezone_cases [OF g]
  have s1: "s1 = ?s0\<lparr>db_faults := tl (db_faults s)\<rparr>" using g' by simp
  have u0: "db_user u ?s0 = db_user u s" by (simp add: db_user_def)
  show ?thesis
  proof (cases r1)
    case (Inl e)
    then have "r = Inl StorageError" "s' = s1" "\<exists>rest. db_faults s = True # rest"
      using assms g g' by (auto simp: setupReminder_def cancel_old Let_def)
    then show ?thesis using s1 by (simp add: unarmed_def)
  next
    case (Inr zo)
    show ?thesis
    proof (cases zo)
      case None
      then have "r = Inl TypeError" "s' = s1"
        using assms g Inr by (auto simp: setupReminder_def cancel_old Let_def)
      then show ?thesis using s1 by (simp add: unarmed_def)
    next
      case (Some z)
      let ?rule = "\<lparr>rule_hour = fst tm, rule_minute = snd tm, rule_tz = z, dayOfWeek = None\<rparr>"
      let ?now = "moment_tz c z"
      let ?nr = "second_set 0 (minute_set (snd tm) (hour_set (fst tm) (moment_tz c z)))"
      have unf: "setupReminder c u tn sch tm s =
          (case next_run sch ?rule ?now ?nr of
             None \<Rightarrow> None
           | Some (Inl e) \<Rightarrow> Some (Inl e, s1)
           | Some (Inr (rule', nextRun')) \<Rightarrow>
               Some (arm_and_persist rule' nextRun' u tn sch tm z s1))"
        using g Inr Some by (simp add: setupReminder_def cancel_old Let_def)
      show ?thesis
      proof (cases "next_run sch ?rule ?now ?nr")
        case None
        then show ?thesis using assms unf by simp
      next
        case (Some x)
        note nx = Some
        show ?thesis
        proof (cases x)
          case (Inl e)
          then have "r = Inl e" "s' = s1" "e = ReferenceError"
            using assms unf nx
            by (auto simp: next_run_def split: scheduleType.splits option.splits if_splits)
          then show ?thesis using s1 by (simp add: unarmed_def)
        next
          case (Inr p)
          obtain rule' nr' where p: "p = (rule', nr')" by force
          have ap: "arm_and_persist rule' nr' u tn sch tm z s1 = (r, s')"
            using assms unf nx Inr p by simp
          note c = arm_and_persist_cases [OF ap]
          have j1: "jobs s1 = jobs_cancelled_at s (reminder_id u tn)" using s1 by simp
          have l1: "length (jobs s1) = length (jobs s)"
            using j1 by (simp add: jobs_cancelled_at_def split: option.splits)
          have a1: "activeReminders s1 = activeReminders s" using s1 by simp
          have d1: "db s1 = db s" using s1 by simp
          have u1: "db_user u s1 = db_user u s" using d1 by (simp add: db_user_def)
          have f1: "db_faults s1 = tl (db_faults s)" using s1 by simp
          have arm: "armed s u tn s'"
            using c j1 l1 a1 by (auto simp: armed_def)
          have oth: "intervals s' = intervals s \<and> activeCountdowns s' = activeCountdowns s \<and>
                discord s' = discord s"
            using c s1 by simp
          from c have "(r = Inl StorageError \<and> db s' = db s1 \<and> (\<exists>rest. db_faults s1 = True # rest))
            \<or> (r = Inr nr' \<and> \<not> (\<exists>rest. db_faults s1 = True # rest) \<and>
                (\<exists>t. schedule t = sch \<and> time t = tm \<and>
                db s' = AList.update u ((db_user u s1)\<lparr>tasks := AList.update tn t (tasks (db_user u s1))\<rparr>) (db s1)))"
            by blast
          then show ?thesis
          proof
            assume a: "r = Inl StorageError \<and> db s' = db s1 \<and> (\<exists>rest. db_faults s1 = True # rest)"
            then obtain rest where "tl (db_faults s) = True # rest" using f1 by auto
            then have "\<exists>f rest. db_faults s = f # True # rest"
              by (cases "db_faults s") auto
            then show ?thesis using a arm oth d1 by simp
          next
            assume a: "r = Inr nr' \<and> \<not> (\<exists>rest. db_faults s1 = True # rest) \<and>
                (\<exists>t. schedule t = sch \<and> time t = tm \<and>
                db s' = AList.update u ((db_user u s1)\<lparr>tasks := AList.update tn t (tasks (db_user u s1))\<rparr>) (db s1))"
            then have "persisted s u tn sch tm s'"
              unfolding persisted_def u1 d1 by blast
            moreover have "\<not> (\<exists>f rest. db_faults s = f # True # rest)"
              using a f1 by auto
            ultimately show ?thesis using a arm oth by simp
          qed
        qed
      qed
    qed
  qed
qed


section \<open>The registry invariant\<close>

lemma jobs_cancelled_at_length [simp]: "length (jobs_cancelled_at s k) = length (jobs s)"
  by (simp add: jobs_cancelled_at_def split: option.splits)

lemma jobs_cancelled_at_nth:
  "j < length (jobs s) \<Longrightarrow>
     jobs_cancelled_at s k ! j =
       (if activeReminders s k = Some j then (jobs s ! j)\<lparr>cancelled := True\<rparr> else jobs s ! j)"
  by (auto simp: jobs_cancelled_at_def split: option.splits)

lemma jobs_cancelled_at_key:
  "j < length (jobs s) \<Longrightarrow> job_key (jobs_cancelled_at s k ! j) = job_key (jobs s ! j)"
  by (simp add: jobs_cancelled_at_nth job_key_def)

lemma jobs_cancelled_at_live:
  "j < length (jobs s) \<Longrightarrow> \<not> cancelled (jobs_cancelled_at s k ! j) \<Longrightarrow>
     \<not> cancelled (jobs s ! j) \<and> activeReminders s k \<noteq> Some j"
  by (auto simp: jobs_cancelled_at_nth split: if_splits)

lemma registry_ok_unarmed:
  assumes "registry_ok s" and "unarmed s k s'"
  shows "registry_ok s'"
  unfolding registry_ok_def
proof (intro conjI allI impI)
  fix j assume j: "j < length (jobs s')" and l: "\<not> cancelled (jobs s' ! j)"
  have js: "jobs s' = jobs_cancelled_at s k" and reg: "activeReminders s' = activeReminders s"
    using assms(2) by (auto simp: unarmed_def)
  have j0: "j < length (jobs s)" using j js by simp
  from jobs_cancelled_at_live [OF j0] l js have "\<not> cancelled (jobs s ! j)" by simp
  with assms(1) j0 have "activeReminders s (job_key (jobs s ! j)) = Some j"
    by (simp add: registry_ok_def)
  then show "activeReminders s' (job_key (jobs s' ! j)) = Some j"
    using reg js jobs_cancelled_at_key [OF j0] by simp
next
  fix k' j assume "activeReminders s' k' = Some j"
  then show "j < length (jobs s')"
    using assms by (auto simp: unarmed_def registry_ok_def)
qed

lemma registry_ok_armed:
  assumes "registry_ok s" and "armed s u tn s'"
  shows "registry_ok s'"
  unfolding registry_ok_def
proof (intro conjI allI impI)
  let ?k = "reminder_id u tn"
  from assms(2) obtain rule where
    js: "jobs s' = jobs_cancelled_at s ?k @
           [\<lparr>job_rule = rule, job_userId = u, job_taskName = tn, cancelled = False\<rparr>]"
    and reg: "activeReminders s' = (activeReminders s)(?k \<mapsto> length (jobs s))"
    by (auto simp: armed_def)
  fix j assume j: "j < length (jobs s')" and l: "\<not> cancelled (jobs s' ! j)"
  show "activeReminders s' (job_key (jobs s' ! j)) = Some j"
  proof (cases "j < length (jobs s)")
    case True
    then have nth: "jobs s' ! j = jobs_cancelled_at s ?k ! j" using js by (simp add: nth_append)
    from jobs_cancelled_at_live [OF True] l nth
    have live: "\<not> cancelled (jobs s ! j)" and other: "activeReminders s ?k \<noteq> Some j" by auto
    from assms(1) True live have r: "activeReminders s (job_key (jobs s ! j)) = Some j"
      by (simp add: registry_ok_def)
    with other have "job_key (jobs s ! j) \<noteq> ?k" by auto
    then show ?thesis using r reg nth jobs_cancelled_at_key [OF True] by simp
  next
    case False
    then have "j = length (jobs s)" using j js by simp
    then show ?thesis using js reg by (simp add: nth_append job_key_def)
  qed
next
  fix k' j assume a: "activeReminders s' k' = Some j"
  from assms(2) have len: "length (jobs s') = Suc (length (jobs s))"
    and reg: "activeReminders s' = (activeReminders s)(reminder_id u tn \<mapsto> length (jobs s))"
    by (auto simp: armed_def)
  show "j < length (jobs s')"
    using a assms(1) len reg by (auto simp: registry_ok_def split: if_splits intro: less_SucI)
qed

lemma registry_ok_setupReminder:
  assumes "registry_ok s" and "setupReminder c u tn sch tm s = Some (r, s')"
  shows "registry_ok s'"
proof -
  from setupReminder_shape [OF assms(2)]
  have "unarmed s (reminder_id u tn) s' \<or> armed s u tn s'" by blast
  then show ?thesis using assms(1) registry_ok_unarmed registry_ok_armed by blast
qed

lemma db_delete_task_frame:
  "db_delete_task u tn s = (r, s') \<Longrightarrow>
     jobs s' = jobs s \<and> activeReminders s' = activeReminders s \<and>
     intervals s' = intervals s \<and> activeCountdowns s' = activeCountdowns s"
proof -
  assume a: "db_delete_task u tn s = (r, s')"
  obtain ok s0 where c: "db_call s = (ok, s0)" by force
  from db_call_cases [OF c] a show ?thesis
    by (cases ok) (auto simp: db_delete_task_def c split: option.splits)
qed

lemma handleTaskCancellation_shape:
  assumes "handleTaskCancellation u tn s = (r, s')"
  shows "jobs s' = jobs_cancelled_at s (reminder_id u tn) \<and>
         activeReminders s' = (activeReminders s)(reminder_id u tn := None)"
proof -
  let ?k = "reminder_id u tn"
  let ?c = "task_countdown_id u tn"
  let ?s1 = "(case activeReminders s ?k of
                Some j \<Rightarrow> (job_cancel j s)\<lparr>activeReminders := (activeReminders s)(?k := None)\<rparr>
              | None \<Rightarrow> s)"
  let ?s2 = "(case activeCountdowns ?s1 ?c of
                Some i \<Rightarrow> (clearInterval i ?s1)\<lparr>activeCountdowns := (activeCountdowns ?s1)(?c := None)\<rparr>
              | None \<Rightarrow> ?s1)"
  have s1: "jobs ?s1 = jobs_cancelled_at s ?k \<and> activeReminders ?s1 = (activeReminders s)(?k := None)"
    by (auto simp: job_cancel_def jobs_cancelled_at_def split: option.splits)
  have s2: "jobs ?s2 = jobs ?s1 \<and> activeReminders ?s2 = activeReminders ?s1"
    by (simp add: clearInterval_def split: option.splits)
  have "db_delete_task u tn ?s2 = (r, s')"
    using assms by (simp add: handleTaskCancellation_def Let_def)
  from db_delete_task_frame [OF this] s1 s2 show ?thesis by simp
qed

lemma registry_ok_handleTaskCancellation:
  assumes "registry_ok s" and "handleTaskCancellation u tn s = (r, s')"
  shows "registry_ok s'"
  unfolding registry_ok_def
proof (intro conjI allI impI)
  let ?k = "reminder_id u tn"
  note sh = handleTaskCancellation_shape [OF assms(2)]
  fix j assume j: "j < length (jobs s')" and l: "\<not> cancelled (jobs s' ! j)"
  have j0: "j < length (jobs s)" using j sh by simp
  from jobs_cancelled_at_live [OF j0] l sh
  have live: "\<not> cancelled (jobs s ! j)" and other: "activeReminders s ?k \<noteq> Some j" by auto
  from assms(1) j0 live have r: "activeReminders s (job_key (jobs s ! j)) = Some j"
    by (simp add: registry_ok_def)
  with other have "job_key (jobs s ! j) \<noteq> ?k" by auto
  then show "activeReminders s' (job_key (jobs s' ! j)) = Some j"
    using r sh jobs_cancelled_at_key [OF j0] by simp
next
  fix k' j assume a: "activeReminders s' k' = Some j"
  note sh = handleTaskCancellation_shape [OF assms(2)]
  show "j < length (jobs s')"
    using a assms(1) sh by (auto simp: registry_ok_def split: if_splits)
qed

lemma registry_ok_run_operations:
  "registry_ok s \<Longrightarrow> run_operations ops s = Some s' \<Longrightarrow> registry_ok s'"
proof (induction ops arbitrary: s)
  case Nil
  then show ?case by simp
next
  case (Cons x xs)
  from Cons.prems(2) obtain s1 where x: "run_operation x s = Some s1"
    and xs: "run_operations xs s1 = Some s'"
    by (auto split: option.splits)
  have "registry_ok s1"
  proof (cases x)
    case (Schedule c u tn sch tm)
    with x obtain r where "setupReminder c u tn sch tm s = Some (r, s1)" by auto
    then show ?thesis using Cons.prems(1) registry_ok_setupReminder by blast
  next
    case (Cancel u tn)
    with x have "handleTaskCancellation u tn s = (fst (handleTaskCancellation u tn s), s1)"
      by (auto simp: prod_eq_iff)
    then show ?thesis using Cons.prems(1) registry_ok_handleTaskCancellation by blast
  qed
  then show ?case using Cons.IH xs by blast
qed

lemma registry_ok_fresh: "registry_ok (fresh_process content faults)"
  by (simp add: registry_ok_def fresh_process_def)

lemma live_timers_le_one:
  assumes "registry_ok s"
  shows "length (live_timers s k) \<le> 1"
proof -
  have d: "distinct (live_timers s k)" by (simp add: live_timers_def)
  have sub: "set (live_timers s k) \<subseteq> (case activeReminders s k of Some j \<Rightarrow> {j} | None \<Rightarrow> {})"
    using assms by (auto simp: live_timers_def registry_ok_def split: option.splits)
  have "card (set (live_timers s k)) \<le> 1"
  proof (cases "activeReminders s k")
    case None
    with sub show ?thesis by simp
  next
    case (Some j)
    with sub have "set (live_timers s k) \<subseteq> {j}" by simp
    then have "card (set (live_timers s k)) \<le> card {j}" by (intro card_mono) auto
    then show ?thesis by simp
  qed
  then show ?thesis using distinct_card [OF d] by simp
qed


section \<open>When setupReminder returns\<close>

text \<open>
  The loop of the array branch returns exactly when it finds a listed weekday; with a
  weekday number in the array that happens after at most six added days, at the first
  day from today on whose weekday is listed.
\<close>

lemma day_of_add_days: "day_of (m + int k * 86400000) = (day_of m + int k) mod 7"
proof -
  have "(m + int k * 86400000) div 86400000 = m div 86400000 + int k" by simp
  then show ?thesis unfolding day_of_def by (simp add: mod_simps algebra_simps)
qed

lemma advance_to_listed_steps:
  "day_of (m + int k * 86400000) \<in> set ds \<Longrightarrow>
   (\<forall>j < k. day_of (m + int j * 86400000) \<notin> set ds) \<Longrightarrow>
   advance_to_listed ds m = Some (m + int k * 86400000)"
proof (induction k arbitrary: m)
  case 0
  then show ?case by (subst advance_to_listed.simps) simp
next
  case (Suc k)
  have first: "day_of m \<notin> set ds" using Suc.prems(2) by force
  have a: "day_of (add_day m + int k * 86400000) \<in> set ds"
    using Suc.prems(1) by (simp add: add_day_def algebra_simps)
  have b: "\<forall>j < k. day_of (add_day m + int j * 86400000) \<notin> set ds"
  proof (intro allI impI)
    fix j assume "j < k"
    then have "day_of (m + int (Suc j) * 86400000) \<notin> set ds" using Suc.prems(2) by blast
    then show "day_of (add_day m + int j * 86400000) \<notin> set ds"
      by (simp add: add_day_def algebra_simps)
  qed
  have "advance_to_listed ds m = advance_to_listed ds (add_day m)"
    using first by (subst advance_to_listed.simps) simp
  also have "\<dots> = Some (add_day m + int k * 86400000)" using Suc.IH [OF a b] .
  finally show ?case by (simp add: add_day_def algebra_simps)
qed

lemma advance_to_listed_returns:
  assumes "\<exists>d \<in> set ds. 0 \<le> d \<and> d < 7"
  shows "\<exists>k \<le> 6. advance_to_listed ds m = Some (m + int k * 86400000) \<and>
           day_of (m + int k * 86400000) \<in> set ds \<and>
           (\<forall>j < k. day_of (m + int j * 86400000) \<notin> set ds)"
proof -
  from assms obtain d where d: "d \<in> set ds" "0 \<le> d" "d < 7" by blast
  define k0 where "k0 = nat ((d - day_of m) mod 7)"
  have k0: "k0 \<le> 6" unfolding k0_def by simp
  have "day_of (m + int k0 * 86400000) = (day_of m + (d - day_of m) mod 7) mod 7"
    unfolding day_of_add_days k0_def by simp
  also have "\<dots> = d mod 7" by (simp add: mod_simps)
  also have "\<dots> = d" using d by simp
  finally have hit: "day_of (m + int k0 * 86400000) \<in> set ds" using d by simp
  define k where "k = (LEAST k. day_of (m + int k * 86400000) \<in> set ds)"
  have kin: "day_of (m + int k * 86400000) \<in> set ds"
    unfolding k_def using hit by (rule LeastI)
  have kle: "k \<le> k0" unfolding k_def using hit by (rule Least_le)
  have least: "\<forall>j < k. day_of (m + int j * 86400000) \<notin> set ds"
    unfolding k_def using not_less_Least by blast
  have "advance_to_listed ds m = Some (m + int k * 86400000)"
    using advance_to_listed_steps [OF kin least] .
  then show ?thesis using kin kle k0 least by (intro exI [where x = k]) simp
qed

lemma next_run_returns:
  "has_weekday sch \<Longrightarrow> next_run sch rule now nr \<noteq> None"
proof (cases sch)
  case (Days ds)
  assume "has_weekday sch"
  then have "\<exists>d \<in> set ds. 0 \<le> d \<and> d < 7" using Days by (simp add: has_weekday_def)
  from advance_to_listed_returns [OF this, of nr] show ?thesis
    using Days by (auto simp: next_run_def)
next
  case (Kind k)
  then show ?thesis by (simp add: next_run_def)
qed

lemma setupReminder_returns:
  assumes "has_weekday sch"
  shows "setupReminder c u tn sch tm s \<noteq> None"
proof -
  let ?s0 = "s\<lparr>jobs := jobs_cancelled_at s (reminder_id u tn)\<rparr>"
  obtain r1 s1 where g: "db_get_timezone u ?s0 = (r1, s1)" by force
  show ?thesis
  proof (cases r1)
    case (Inl e)
    then show ?thesis using g by (simp add: setupReminder_def cancel_old Let_def)
  next
    case (Inr zo)
    show ?thesis
    proof (cases zo)
      case None
      then show ?thesis using g Inr by (simp add: setupReminder_def cancel_old Let_def)
    next
      case (Some z)
      let ?rule = "\<lparr>rule_hour = fst tm, rule_minute = snd tm, rule_tz = z, dayOfWeek = None\<rparr>"
      let ?nr = "second_set 0 (minute_set (snd tm) (hour_set (fst tm) (moment_tz c z)))"
      from next_run_returns [OF assms, of ?rule "moment_tz c z" ?nr]
      obtain x where x: "next_run sch ?rule (moment_tz c z) ?nr = Some x" by blast
      show ?thesis using g Inr Some x
        by (cases x) (auto simp: setupReminder_def cancel_old Let_def)
    qed
  qed
qed

lemma run_operations_returns:
  "\<forall>x \<in> set ops. operation_has_weekday x \<Longrightarrow> run_operations ops s \<noteq> None"
proof (induction ops arbitrary: s)
  case Nil
  then show ?case by simp
next
  case (Cons x xs)
  have "run_operation x s \<noteq> None"
  proof (cases x)
    case (Schedule c u tn sch tm)
    then show ?thesis using Cons.prems setupReminder_returns by simp
  next
    case (Cancel u tn)
    then show ?thesis by simp
  qed
  then obtain s1 where "run_operation x s = Some s1" by blast
  then show ?case using Cons by simp
qed

lemma next_run_value:
  assumes "has_weekday sch" and "sch \<noteq> Kind ''weekly''" and "sch \<noteq> Kind ''monthly''"
  shows "\<exists>rule' nr'. next_run sch rule now nr = Some (Inr (rule', nr'))"
proof (cases sch)
  case (Days ds)
  then have "\<exists>d \<in> set ds. 0 \<le> d \<and> d < 7" using assms(1) by (simp add: has_weekday_def)
  from advance_to_listed_returns [OF this, of nr] show ?thesis
    using Days by (auto simp: next_run_def)
next
  case (Kind k)
  then show ?thesis using assms(2,3) by (simp add: next_run_def)
qed

lemma setupReminder_write_rejected:
  assumes faults: "db_faults s = False # True # rest"
    and tz: "user_timezone (db_user u s) = Some z"
    and sch: "has_weekday sch" "sch \<noteq> Kind ''weekly''" "sch \<noteq> Kind ''monthly''"
  shows "\<exists>s'. setupReminder c u tn sch tm s = Some (Inl StorageError, s')"
proof -
  let ?s0 = "s\<lparr>jobs := jobs_cancelled_at s (reminder_id u tn)\<rparr>"
  obtain r1 s1 where g: "db_get_timezone u ?s0 = (r1, s1)" by force
  have u0: "db_user u ?s0 = db_user u s" by (simp add: db_user_def)
  from db_get_timezone_cases [OF g] faults tz u0
  have r1: "r1 = Inr (Some z)" and f1: "db_faults s1 = True # rest" by auto
  let ?rule = "\<lparr>rule_hour = fst tm, rule_minute = snd tm, rule_tz = z, dayOfWeek = None\<rparr>"
  let ?nr = "second_set 0 (minute_set (snd tm) (hour_set (fst tm) (moment_tz c z)))"
  from next_run_value [OF sch, of ?rule "moment_tz c z" ?nr]
  obtain rule' nr' where x: "next_run sch ?rule (moment_tz c z) ?nr = Some (Inr (rule', nr'))"
    by blast
  obtain r s' where ap: "arm_and_persist rule' nr' u tn sch tm z s1 = (r, s')" by force
  have call: "setupReminder c u tn sch tm s = Some (r, s')"
    using g r1 x ap by (simp add: setupReminder_def cancel_old Let_def)
  from arm_and_persist_cases [OF ap] f1 have "r = Inl StorageError" by auto
  then show ?thesis using call by blast
qed

section \<open>At most one live timer per key\<close>

text \<open>
  Claim C2. A process starts with no job and an empty registry, over any store content and
  with any outcomes of the store calls. Every finite sequence of schedule
  (\<open>setupReminder\<close>) and cancel (\<open>handleTaskCancellation\<close>) operations, on whatever keys,
  whose array schedules hold a weekday number returns; and after any sequence that
  returns, every key has at most one live timer. Scheduling over a key that has a
  registered job cancels that job: after the call the old handle is cancelled and is not
  among the live timers of the key, whether or not a new job was scheduled.
\<close>

theorem at_most_one_live_timer:
  "(list_all operation_has_weekday ops
      \<longrightarrow> run_operations ops (fresh_process content faults) \<noteq> None)
   \<and> (run_operations ops (fresh_process content faults) = Some s
      \<longrightarrow> length (live_timers s k) \<le> 1 \<and>
         (\<forall>c u tn sch tm j r s'.
            activeReminders s (reminder_id u tn) = Some j \<and>
            setupReminder c u tn sch tm s = Some (r, s')
            \<longrightarrow> j < length (jobs s') \<and> cancelled (jobs s' ! j) \<and>
                j \<notin> set (live_timers s' (reminder_id u tn))))"
proof (intro conjI allI impI)
  assume "list_all operation_has_weekday ops"
  then show "run_operations ops (fresh_process content faults) \<noteq> None"
    using run_operations_returns by (simp add: list_all_iff)
next
  assume run: "run_operations ops (fresh_process content faults) = Some s"
  show "length (live_timers s k) \<le> 1"
    using live_timers_le_one [OF registry_ok_run_operations [OF registry_ok_fresh run]] .
next
  fix c u tn sch tm j r s'
  assume run: "run_operations ops (fresh_process content faults) = Some s"
  assume a: "activeReminders s (reminder_id u tn) = Some j \<and>
             setupReminder c u tn sch tm s = Some (r, s')"
  have ok: "registry_ok s"
    using registry_ok_run_operations [OF registry_ok_fresh run] .
  from a have j: "j < length (jobs s)" using ok by (auto simp: registry_ok_def)
  from a have sh: "unarmed s (reminder_id u tn) s' \<or> armed s u tn s'"
    using setupReminder_shape [of c u tn sch tm s r s'] by blast
  have c0: "cancelled (jobs_cancelled_at s (reminder_id u tn) ! j)"
    using a j by (simp add: jobs_cancelled_at_nth)
  from sh have "j < length (jobs s') \<and> cancelled (jobs s' ! j)"
  proof
    assume "unarmed s (reminder_id u tn) s'"
    then show ?thesis using c0 j by (simp add: unarmed_def)
  next
    assume "armed s u tn s'"
    then show ?thesis using c0 j by (auto simp: armed_def nth_append)
  qed
  then show "j < length (jobs s')" and "cancelled (jobs s' ! j)"
    and "j \<notin> set (live_timers s' (reminder_id u tn))"
    by (auto simp: live_timers_def)
qed

theorem at_most_one_live_timer_witness:
  "list_all operation_has_weekday
     [Schedule 1704099600000 ''42'' ''gym'' (Kind ''daily'') (9, 0),
      Cancel ''42'' ''gym'',
      Schedule 1704099600000 ''42'' ''gym'' (Days [1, 3]) (18, 30)]
   \<and> run_operations
       [Schedule 1704099600000 ''42'' ''gym'' (Kind ''daily'') (9, 0),
        Cancel ''42'' ''gym'',
        Schedule 1704099600000 ''42'' ''gym'' (Days [1, 3]) (18, 30)]
       (fresh_process example_store [])
     = Some example_rescheduled
   \<and> length (live_timers example_rescheduled ''42_gym'') \<le> 1
   \<and> activeReminders example_rescheduled (reminder_id ''42'' ''gym'') = Some 1
   \<and> map_option fst
        (setupReminder 1704099600000 ''42'' ''gym'' (Kind ''daily'') (7, 0) example_rescheduled)
      = Some (Inr 1704178800000)
   \<and> cancelled
        (jobs (snd (the (setupReminder 1704099600000 ''42'' ''gym'' (Kind ''daily'') (7, 0)
                           example_rescheduled))) ! 1)"
proof -
  let ?ops = "[Schedule 1704099600000 ''42'' ''gym'' (Kind ''daily'') (9, 0),
      Cancel ''42'' ''gym'',
      Schedule 1704099600000 ''42'' ''gym'' (Days [1, 3]) (18, 30)]"
  let ?again = "setupReminder 1704099600000 ''42'' ''gym'' (Kind ''daily'') (7, 0)
                  example_rescheduled"
  note th = at_most_one_live_timer
    [of ?ops example_store "[]" example_rescheduled "''42_gym''"]
  have valid: "list_all operation_has_weekday ?ops"
    by (simp add: has_weekday_def)
  have run: "run_operations ?ops (fresh_process example_store []) = Some example_rescheduled"
    by (simp add: eval_defs handleTaskCancellation_def task_countdown_id_def db_delete_task_def
          advance_to_listed.simps AList.delete_eq fun_upd_twist example_rescheduled_def)
  have reg: "activeReminders example_rescheduled (reminder_id ''42'' ''gym'') = Some 1"
    by (simp add: example_rescheduled_def reminder_id_def)
  have res: "map_option fst ?again = Some (Inr 1704178800000)"
    by (simp add: eval_defs example_rescheduled_def)
  then obtain s' where again: "?again = Some (Inr 1704178800000, s')"
    by (cases ?again) auto
  from th run have "length (live_timers example_rescheduled ''42_gym'') \<le> 1" by blast
  moreover from th run reg again have "cancelled (jobs s' ! 1)" by blast
  ultimately show ?thesis using valid run reg res again by simp
qed

section \<open>The order of arming and persisting\<close>

text \<open>
  Claim C3, as stated, at a concrete input: user 42 schedules a daily task, the read of
  the zone succeeds and the write of the task is rejected. The call fails with the
  storage error, and the job it scheduled before the write is live and registered, while
  the store holds no task.
\<close>

theorem write_failure_leaves_timer_armed_counterexample:
  "setupReminder 1704099600000 ''42'' ''gym'' (Kind ''daily'') (9, 0)
     (fresh_process example_store [False, True])
   = Some (Inl StorageError,
           (fresh_process example_store [])
             \<lparr>activeReminders := [''42_gym'' \<mapsto> 0],
              jobs := [\<lparr>job_rule = \<lparr>rule_hour = 9, rule_minute = 0, rule_tz = 3600000,
                                   dayOfWeek = None\<rparr>,
                        job_userId = ''42'', job_taskName = ''gym'', cancelled = False\<rparr>]\<rparr>)"
  by (simp add: eval_defs)

text \<open>
  Claim C3, amended. \<open>setupReminder\<close> schedules and registers the job first and writes the
  task to the store afterwards. Let the read of the zone succeed and the write be
  rejected. Then a call that reaches the write (the user has a zone, the schedule is
  neither \<open>'weekly'\<close> nor \<open>'monthly'\<close>, and an array schedule holds a weekday number)
  returns and fails with the storage error. And every call that returns fails with an
  error; when that error is the storage error, the store is unchanged and the job
  scheduled by the call is registered under the key and stays a live timer.
\<close>

theorem setupReminder_arms_then_persists:
  assumes "db_faults s = False # True # rest"
  shows "(user_timezone (db_user u s) \<noteq> None \<and> has_weekday sch \<and>
          sch \<noteq> Kind ''weekly'' \<and> sch \<noteq> Kind ''monthly''
          \<longrightarrow> (\<exists>s'. setupReminder c u tn sch tm s = Some (Inl StorageError, s')))
       \<and> (setupReminder c u tn sch tm s = Some (r, s')
          \<longrightarrow> (\<exists>e. r = Inl e) \<and>
              (r = Inl StorageError \<longrightarrow>
                 db s' = db s \<and>
                 activeReminders s' (reminder_id u tn) = Some (length (jobs s)) \<and>
                 length (jobs s) < length (jobs s') \<and>
                 \<not> cancelled (jobs s' ! length (jobs s)) \<and>
                 job_key (jobs s' ! length (jobs s)) = reminder_id u tn \<and>
                 live_timers s' (reminder_id u tn) \<noteq> []))"
proof (intro conjI impI)
  assume "user_timezone (db_user u s) \<noteq> None \<and> has_weekday sch \<and>
          sch \<noteq> Kind ''weekly'' \<and> sch \<noteq> Kind ''monthly''"
  then obtain z where "user_timezone (db_user u s) = Some z" and "has_weekday sch"
    and "sch \<noteq> Kind ''weekly''" and "sch \<noteq> Kind ''monthly''" by auto
  then show "\<exists>s'. setupReminder c u tn sch tm s = Some (Inl StorageError, s')"
    by (rule setupReminder_write_rejected [OF assms])
next
  assume call: "setupReminder c u tn sch tm s = Some (r, s')"
  from setupReminder_shape [OF call] assms
  show "\<exists>e. r = Inl e" by auto
next
  assume call: "setupReminder c u tn sch tm s = Some (r, s')" and r: "r = Inl StorageError"
  from setupReminder_shape [OF call] assms r
  have a: "armed s u tn s' \<and> db s' = db s" by auto
  then obtain rule where
    js: "jobs s' = jobs_cancelled_at s (reminder_id u tn) @
           [\<lparr>job_rule = rule, job_userId = u, job_taskName = tn, cancelled = False\<rparr>]"
    and reg: "activeReminders s' = (activeReminders s)(reminder_id u tn \<mapsto> length (jobs s))"
    by (auto simp: armed_def)
  have nth: "jobs s' ! length (jobs s)
      = \<lparr>job_rule = rule, job_userId = u, job_taskName = tn, cancelled = False\<rparr>"
    using js by (simp add: nth_append)
  have len: "length (jobs s') = Suc (length (jobs s))" using js by simp
  have "length (jobs s) \<in> set (live_timers s' (reminder_id u tn))"
    using nth len by (simp add: live_timers_def job_key_def)
  then have live: "live_timers s' (reminder_id u tn) \<noteq> []" by auto
  show "db s' = db s" using a by simp
  show "activeReminders s' (reminder_id u tn) = Some (length (jobs s))" using reg by simp
  show "length (jobs s) < length (jobs s')" using len by simp
  show "\<not> cancelled (jobs s' ! length (jobs s))" using nth by simp
  show "job_key (jobs s' ! length (jobs s)) = reminder_id u tn" using nth by (simp add: job_key_def)
  show "live_timers s' (reminder_id u tn) \<noteq> []" using live .
qed

theorem setupReminder_arms_then_persists_witness:
  "db_faults (fresh_process example_store [False, True]) = False # True # []
   \<and> user_timezone (db_user ''42'' (fresh_process example_store [False, True])) \<noteq> None
   \<and> has_weekday (Kind ''daily'')
   \<and> map_option fst (setupReminder 1704099600000 ''42'' ''gym'' (Kind ''daily'') (9, 0)
                       (fresh_process example_store [False, True])) = Some (Inl StorageError)
   \<and> live_timers (snd (the (setupReminder 1704099600000 ''42'' ''gym'' (Kind ''daily'') (9, 0)
                                (fresh_process example_store [False, True])))) (reminder_id ''42'' ''gym'')
       \<noteq> []"
proof -
  let ?call = "setupReminder 1704099600000 ''42'' ''gym'' (Kind ''daily'') (9, 0)
                 (fresh_process example_store [False, True])"
  have f: "db_faults (fresh_process example_store [False, True]) = False # True # []"
    by (simp add: fresh_process_def)
  have z: "user_timezone (db_user ''42'' (fresh_process example_store [False, True])) \<noteq> None"
    by (simp add: fresh_process_def db_user_def example_store_def)
  have w: "has_weekday (Kind ''daily'')" by (simp add: has_weekday_def)
  note th = setupReminder_arms_then_persists [OF f, of "''42''" "Kind ''daily''" 1704099600000 "''gym''" "(9, 0)"]
  from th z w obtain s' where call: "?call = Some (Inl StorageError, s')"
    by auto
  from th [of "Inl StorageError" s'] call
  have "live_timers s' (reminder_id ''42'' ''gym'') \<noteq> []" by blast
  then show ?thesis using f z w call by simp
qed

section \<open>The candidate of the array branch and of the weekly and monthly branches\<close>

text \<open>
  Claim C1 at a failing input. On Monday 1 January 2024 at 10:00 in the user's zone, user
  42 schedules a task for Mondays, Wednesdays and Fridays at 08:00. The returned
  \<open>nextRun\<close> is 08:00 of the same Monday, which is before the reading of the clock: the
  array branch never compares the candidate with \<open>now\<close>.
\<close>

theorem custom_days_past_occurrence:
  "map_option fst
     (setupReminder 1704099600000 ''42'' ''gym'' (Days [1, 3, 5]) (8, 0)
        (fresh_process example_store []))
   = Some (Inr 1704096000000)
   \<and> moment_tz 1704099600000 3600000 = 1704103200000
   \<and> isBefore 1704096000000 (moment_tz 1704099600000 3600000)"
  by (simp add: eval_defs advance_to_listed.simps)

text \<open>
  Claim C5 at a failing input. On Wednesday 3 January 2024 at 20:30 in the user's zone, a
  task for Wednesdays at 08:00: the loop tests the weekday only, makes no iteration and
  leaves the candidate at 08:00 of that day, which is not greater than \<open>now\<close>.
\<close>

theorem custom_days_stops_today:
  "map_option fst
     (setupReminder 1704310200000 ''42'' ''gym'' (Days [3]) (8, 0)
        (fresh_process example_store []))
   = Some (Inr 1704268800000)
   \<and> day_of (moment_tz 1704310200000 3600000) = 3
   \<and> day_of 1704268800000 = 3
   \<and> 1704268800000 < moment_tz 1704310200000 3600000"
  by (simp add: eval_defs advance_to_listed.simps)

text \<open>
  Claim C4 at its failing inputs. For every reading of the clock, time of day and stored
  zone, \<open>setupReminder\<close> with the schedule \<open>'weekly'\<close> throws a ReferenceError before any
  candidate is advanced; no job is scheduled and nothing is written.
\<close>

theorem weekly_throws_ReferenceError:
  "setupReminder c u tn (Kind ''weekly'') tm
     (fresh_process [(u, \<lparr>user_timezone = Some z, reminderChannel = ch, tasks = ts\<rparr>)] [])
   = Some (Inl ReferenceError,
           fresh_process [(u, \<lparr>user_timezone = Some z, reminderChannel = ch, tasks = ts\<rparr>)] [])"
  by (simp add: setupReminder_def next_run_def db_get_timezone_def db_call_def db_user_def
        fresh_process_def Let_def)

text \<open>
  Claim C6 at its failing inputs. For every reading of the clock, time of day and stored
  zone, \<open>setupReminder\<close> with the schedule \<open>'monthly'\<close> throws a ReferenceError before the
  day of the month is clamped; no job is scheduled and nothing is written.
\<close>

theorem monthly_throws_ReferenceError:
  "setupReminder c u tn (Kind ''monthly'') tm
     (fresh_process [(u, \<lparr>user_timezone = Some z, reminderChannel = ch, tasks = ts\<rparr>)] [])
   = Some (Inl ReferenceError,
           fresh_process [(u, \<lparr>user_timezone = Some z, reminderChannel = ch, tasks = ts\<rparr>)] [])"
  by (simp add: setupReminder_def next_run_def db_get_timezone_def db_call_def db_user_def
        fresh_process_def Let_def)

section \<open>The walk of the sweeps over the rows\<close>
















section \<open>The countdown stops itself\<close>

lemma periods_cleared:
  "i < length (intervals s) \<Longrightarrow> cleared (intervals s ! i) \<Longrightarrow> periods i ps s = (0, s)"
  by (induction ps) (auto simp: interval_elapses_def)

lemma countdown_tick_stops:
  assumes "i < length (intervals s)"
    and "iv_targetDate (intervals s ! i) \<le> now \<or> \<not> edit_ok"
  shows "length (intervals (countdown_tick now edit_ok i s)) = length (intervals s)"
    and "cleared (intervals (countdown_tick now edit_ok i s) ! i)"
    and "activeCountdowns (countdown_tick now edit_ok i s) (iv_countdownId (intervals s ! i)) = None"
    and "iv_targetDate (intervals s ! i) \<le> now \<Longrightarrow>
           discord (countdown_tick now edit_ok i s)
             = discord s @ [MessageDelete (iv_message (intervals s ! i))]"
  using assms by (auto simp: countdown_tick_def clearInterval_def Let_def)

lemma startCountdownUpdate_live:
  assumes "startCountdownUpdate msg targetDate s0 = (i, s)"
  shows "i < length (intervals s) \<and> \<not> cleared (intervals s ! i) \<and>
         iv_targetDate (intervals s ! i) = targetDate \<and> iv_message (intervals s ! i) = msg \<and>
         iv_countdownId (intervals s ! i) = countdown_id msg \<and>
         activeCountdowns s (countdown_id msg) = Some i"
  using assms
  by (auto simp: startCountdownUpdate_def setInterval_def clearInterval_def Let_def nth_append
      split: option.splits)

text \<open>
  Claim C9. Take a countdown that is running (its interval exists and is not cleared) and
  let one period elapse at a reading of the clock that has reached the target, or with
  the edit of the message failing. That tick clears the interval and removes the entry
  of the countdown from \<open>activeCountdowns\<close>; when the target is reached it also calls
  \<open>message.delete()\<close>, the terminal action. And whatever periods elapse afterwards, the
  callback is never called again and the state stays as it is.
\<close>

theorem countdown_stops_itself:
  assumes "i < length (intervals s)" and "\<not> cleared (intervals s ! i)"
    and "iv_targetDate (intervals s ! i) \<le> now \<or> \<not> edit_ok"
  shows "cleared (intervals (interval_elapses i now edit_ok s) ! i)
       \<and> activeCountdowns (interval_elapses i now edit_ok s) (iv_countdownId (intervals s ! i)) = None
       \<and> (iv_targetDate (intervals s ! i) \<le> now \<longrightarrow>
            discord (interval_elapses i now edit_ok s)
              = discord s @ [MessageDelete (iv_message (intervals s ! i))])
       \<and> (\<forall>later. periods i later (interval_elapses i now edit_ok s)
                     = (0, interval_elapses i now edit_ok s))"
proof -
  have e: "interval_elapses i now edit_ok s = countdown_tick now edit_ok i s"
    using assms(1,2) by (simp add: interval_elapses_def)
  note t = countdown_tick_stops [OF assms(1) assms(3)]
  have "\<forall>later. periods i later (countdown_tick now edit_ok i s)
                  = (0, countdown_tick now edit_ok i s)"
    using periods_cleared t(1,2) assms(1) by simp
  then show ?thesis using t e by simp
qed

theorem countdown_stops_itself_witness:
  "startCountdownUpdate example_message 1704103200000 (fresh_process [] []) = (0, example_ticking)
   \<and> 0 < length (intervals example_ticking) \<and> \<not> cleared (intervals example_ticking ! 0)
   \<and> iv_targetDate (intervals example_ticking ! 0) \<le> 1704103260000
   \<and> cleared (intervals (interval_elapses 0 1704103260000 True example_ticking) ! 0)
   \<and> activeCountdowns (interval_elapses 0 1704103260000 True example_ticking) ''g1_m7'' = None
   \<and> discord (interval_elapses 0 1704103260000 True example_ticking)
       = [MessageDelete example_message]
   \<and> periods 0 [(1704103320000, True), (1704103380000, True)]
        (interval_elapses 0 1704103260000 True example_ticking)
       = (0, interval_elapses 0 1704103260000 True example_ticking)"
proof -
  have start: "startCountdownUpdate example_message 1704103200000 (fresh_process [] [])
      = (0, example_ticking)"
    by (simp add: startCountdownUpdate_def setInterval_def countdown_id_def example_message_def
          example_ticking_def fresh_process_def Let_def)
  have h: "0 < length (intervals example_ticking)" "\<not> cleared (intervals example_ticking ! 0)"
    "iv_targetDate (intervals example_ticking ! 0) \<le> 1704103260000 \<or> \<not> True"
    by (simp_all add: example_ticking_def)
  have f: "iv_countdownId (intervals example_ticking ! 0) = ''g1_m7''"
    "iv_message (intervals example_ticking ! 0) = example_message"
    "iv_targetDate (intervals example_ticking ! 0) \<le> 1704103260000"
    "discord example_ticking = []"
    by (simp_all add: example_ticking_def fresh_process_def)
  note th = countdown_stops_itself [OF h]
  have a: "cleared (intervals (interval_elapses 0 1704103260000 True example_ticking) ! 0)"
    using th by blast
  have b: "activeCountdowns (interval_elapses 0 1704103260000 True example_ticking) ''g1_m7''
      = None"
    using th f(1) by simp
  have c: "discord (interval_elapses 0 1704103260000 True example_ticking)
      = [MessageDelete example_message]"
    using th f by simp
  have d: "periods 0 [(1704103320000, True), (1704103380000, True)]
        (interval_elapses 0 1704103260000 True example_ticking)
       = (0, interval_elapses 0 1704103260000 True example_ticking)"
    using th by blast
  show ?thesis using start h(1,2) f(3) a b c d by blast
qed

end
